theory Spec2Isabelle
  imports Main "HOL-Library.Word"
begin

section \<open>koa: memory entry tracer, bytecode assembler and lexer driver\<close>

text \<open>
  A shallow embedding of \<^verbatim>\<open>translate/tracer.go\<close>, \<^verbatim>\<open>translate/bytecode.go\<close> and
  \<^verbatim>\<open>parse/lex.go\<close>. A Go \<^verbatim>\<open>[]byte\<close> is a list of 8-bit words, a Go \<^verbatim>\<open>string\<close> a
  \<^typ>\<open>string\<close>, a Go \<^verbatim>\<open>map[string]MemEntry\<close> a partial function. A method with a pointer
  receiver that mutates it returns the updated receiver next to its result.

  Go's \<^verbatim>\<open>int\<close> has the width of the platform, 32 or 64 bits, and its addition wraps
  around. In the tracer, whose counter is a running sum, an \<^verbatim>\<open>int\<close> is a word
  \<^typ>\<open>'w word\<close> of any width \<open>'w\<close>, read as a signed number by \<^const>\<open>sint\<close>. In the
  assembler every \<^verbatim>\<open>int\<close> is the length of a slice or an index into one, with no
  arithmetic on it, and is an \<^typ>\<open>int\<close>.
\<close>

type_synonym byte = "8 word"

subsection \<open>translate/tracer.go\<close>

text \<open>\<^verbatim>\<open>type EntryError struct { Id string }\<close> and its \<^verbatim>\<open>Error()\<close> method, which formats
  \<^verbatim>\<open>"[%s] definition doesn't exist"\<close>.\<close>

datatype EntryError = EntryError (Id: string)

definition Error :: "EntryError \<Rightarrow> string" where
  "Error e = ''['' @ Id e @ ''] definition doesn't exist''"

text \<open>The two structs, with the type of Go's \<^verbatim>\<open>int\<close> as the parameter \<open>'int\<close>; the
  functions below take it to be \<^typ>\<open>'w word\<close>.\<close>

record 'int MemEntry =
  Offset :: "'int"
  Size :: "'int"

record 'int MemEntryTable =
  EntryMap :: "string \<rightharpoonup> 'int MemEntry"
  MemoryCounter :: "'int"

definition NewMemEntryTable :: "'w::len word MemEntryTable" where
  "NewMemEntryTable = \<lparr>EntryMap = Map.empty, MemoryCounter = 0\<rparr>"

text \<open>
  \<^verbatim>\<open>Define\<close> mutates its receiver: the model returns the entry and the updated table.
  \<^verbatim>\<open>len(value)\<close> is the length as an \<^verbatim>\<open>int\<close>: a Go slice has fewer than \<open>2 ^ (w - 1)\<close>
  elements, for which \<^const>\<open>word_of_nat\<close> is exact. \<^verbatim>\<open>m.MemoryCounter += size\<close> is the
  addition of the word type, which wraps around.
\<close>

definition Define ::
  "'w::len word MemEntryTable \<Rightarrow> string \<Rightarrow> byte list \<Rightarrow> 'w word MemEntry \<times> 'w word MemEntryTable" where
  "Define m ident val =
     (let entry = \<lparr>Offset = MemoryCounter m, Size = 0\<rparr>;
          size = word_of_nat (length val);
          entry = entry\<lparr>Size := size\<rparr>;
          m = m\<lparr>MemoryCounter := MemoryCounter m + size\<rparr>;
          m = m\<lparr>EntryMap := (EntryMap m)(ident \<mapsto> entry)\<rparr>
      in (entry, m))"

text \<open>The getters return Go's pair \<^verbatim>\<open>(int, error)\<close>; \<open>None\<close> is the \<^verbatim>\<open>nil\<close> error.\<close>

definition GetOffsetOfEntry ::
  "'w::len word MemEntryTable \<Rightarrow> string \<Rightarrow> 'w word \<times> EntryError option" where
  "GetOffsetOfEntry m ident =
     (case EntryMap m ident of
        None \<Rightarrow> (0, Some (EntryError ident))
      | Some entry \<Rightarrow> (Offset entry, None))"

definition GetSizeOfEntry ::
  "'w::len word MemEntryTable \<Rightarrow> string \<Rightarrow> 'w word \<times> EntryError option" where
  "GetSizeOfEntry m ident =
     (case EntryMap m ident of
        None \<Rightarrow> (0, Some (EntryError ident))
      | Some entry \<Rightarrow> (Size entry, None))"

text \<open>A caller's sequence of \<^verbatim>\<open>Define\<close> calls on one table, in program order: the entries
  returned, call by call, and the table after the last call.\<close>

fun define_all ::
  "'w::len word MemEntryTable \<Rightarrow> (string \<times> byte list) list
     \<Rightarrow> 'w word MemEntry list \<times> 'w word MemEntryTable" where
  "define_all m [] = ([], m)"
| "define_all m ((ident, val) # calls) =
     (case Define m ident val of
        (entry, m') \<Rightarrow> (case define_all m' calls of (entries, m'') \<Rightarrow> (entry # entries, m'')))"

text \<open>The sizes of the values of a call sequence, summed as mathematical integers.\<close>

definition total_size :: "(string \<times> byte list) list \<Rightarrow> int" where
  "total_size calls = sum_list (map (\<lambda>c. int (length (snd c))) calls)"

text \<open>The sum of the \<^verbatim>\<open>Size\<close> fields of the entries a table's \<^verbatim>\<open>EntryMap\<close> holds, each
  read as the signed number it is in Go.\<close>

definition recorded_sizes :: "'w::len word MemEntryTable \<Rightarrow> int" where
  "recorded_sizes m = (\<Sum>k \<in> dom (EntryMap m). sint (Size (the (EntryMap m k))))"

subsection \<open>translate/bytecode.go\<close>

text \<open>
  Package \<^verbatim>\<open>opcode\<close> is imported by \<^verbatim>\<open>bytecode.go\<close> and is not among the sources. What the
  assembler uses of it is taken as a parameter: the method \<^verbatim>\<open>String() (string, error)\<close> of
  \<^verbatim>\<open>opcode.Type\<close>, which fails on a value that is no mnemonic, and the conversion
  \<^verbatim>\<open>byte(operator)\<close>.
\<close>

record ('op, 'err) opcode_Type =
  op_String :: "'op \<Rightarrow> 'err + string"
  op_byte :: "'op \<Rightarrow> byte"

text \<open>A one-mnemonic instance of the parameter, used to run the assembler on concrete
  inputs: the byte \<open>0x21\<close> is \<^verbatim>\<open>Push\<close>, every other byte is refused.\<close>

definition push_only :: "(byte, unit) opcode_Type" where
  "push_only = \<lparr>op_String = (\<lambda>operator. if operator = 0x21 then Inr ''Push'' else Inl ()),
                 op_byte = (\<lambda>operator. operator)\<rparr>"

record AsmCode =
  RawByte :: "byte list"
  Value :: string

record Asm =
  AsmCodes :: "AsmCode list"

text \<open>Go's run-time panics on an index or a slice bound out of range.\<close>

datatype panic = IndexOutOfRange | SliceBoundsOutOfRange

text \<open>\<^verbatim>\<open>fmt.Sprintf("%x", b)\<close> on a byte slice: two lower-case hexadecimal digits a byte.\<close>

definition hex_digit :: "nat \<Rightarrow> char" where
  "hex_digit n = ''0123456789abcdef'' ! n"

definition Sprintf_x :: "byte list \<Rightarrow> string" where
  "Sprintf_x bs = concat (map (\<lambda>b. [hex_digit (unat b div 16), hex_digit (unat b mod 16)]) bs)"

definition convert ::
  "('op, 'err) opcode_Type \<Rightarrow> 'op \<Rightarrow> byte list list \<Rightarrow> 'err + AsmCode list" where
  "convert oc operator operands =
     (case op_String oc operator of
        Inl err \<Rightarrow> Inl err
      | Inr opStr \<Rightarrow>
          Inr (foldl (\<lambda>asmCodes opnd. asmCodes @ [\<lparr>RawByte = opnd, Value = Sprintf_x opnd\<rparr>])
                 [\<lparr>RawByte = [op_byte oc operator], Value = opStr\<rparr>] operands))"

text \<open>\<^verbatim>\<open>Emerge\<close> returns an \<^verbatim>\<open>int\<close> and mutates its receiver.\<close>

definition Emerge ::
  "('op, 'err) opcode_Type \<Rightarrow> Asm \<Rightarrow> 'op \<Rightarrow> byte list list \<Rightarrow> int \<times> Asm" where
  "Emerge oc a operator operands =
     (case convert oc operator operands of
        Inl err \<Rightarrow> (0, a)
      | Inr asmCode \<Rightarrow>
          (let a = a\<lparr>AsmCodes := AsmCodes a @ asmCode\<rparr>
           in (int (length (AsmCodes a)), a)))"

text \<open>
  \<^verbatim>\<open>EmergeAt\<close> slices \<^verbatim>\<open>a.AsmCodes[:index]\<close> and \<^verbatim>\<open>a.AsmCodes[index:]\<close> after
  \<^verbatim>\<open>convert\<close> has succeeded. The second panics when \<^verbatim>\<open>index\<close> is negative or beyond the
  length, whatever the capacity. The inner \<^verbatim>\<open>append\<close> copies the tail behind the fresh
  \<^verbatim>\<open>asmCode\<close> before the outer one writes, so the result is the plain concatenation.
\<close>

definition EmergeAt ::
  "('op, 'err) opcode_Type \<Rightarrow> Asm \<Rightarrow> int \<Rightarrow> 'op \<Rightarrow> byte list list \<Rightarrow> panic + int \<times> Asm" where
  "EmergeAt oc a index operator operands =
     (case convert oc operator operands of
        Inl err \<Rightarrow> Inr (0, a)
      | Inr asmCode \<Rightarrow>
          if index < 0 \<or> int (length (AsmCodes a)) < index then Inl SliceBoundsOutOfRange
          else
            (let a = a\<lparr>AsmCodes :=
                        take (nat index) (AsmCodes a) @ (asmCode @ drop (nat index) (AsmCodes a))\<rparr>
             in Inr (int (length (AsmCodes a)), a)))"

text \<open>\<^verbatim>\<open>ReplaceOperandAt\<close> always returns the \<^verbatim>\<open>nil\<close> error, unless the index
  expression panics: the model returns the updated receiver or the panic.\<close>

definition ReplaceOperandAt :: "Asm \<Rightarrow> int \<Rightarrow> byte list \<Rightarrow> panic + Asm" where
  "ReplaceOperandAt a index operands =
     (if index < 0 \<or> int (length (AsmCodes a)) \<le> index then Inl IndexOutOfRange
      else Inr (a\<lparr>AsmCodes :=
                   (AsmCodes a)[nat index := \<lparr>RawByte = operands, Value = Sprintf_x operands\<rparr>]\<rparr>))"

text \<open>\<^verbatim>\<open>ReplaceOperatorAt\<close> returns the error of \<^verbatim>\<open>String()\<close> before it indexes.\<close>

definition ReplaceOperatorAt ::
  "('op, 'err) opcode_Type \<Rightarrow> Asm \<Rightarrow> int \<Rightarrow> 'op \<Rightarrow> panic + 'err option \<times> Asm" where
  "ReplaceOperatorAt oc a index operator =
     (case op_String oc operator of
        Inl err \<Rightarrow> Inr (Some err, a)
      | Inr opStr \<Rightarrow>
          if index < 0 \<or> int (length (AsmCodes a)) \<le> index then Inl IndexOutOfRange
          else Inr (None, a\<lparr>AsmCodes :=
                      (AsmCodes a)[nat index := \<lparr>RawByte = [op_byte oc operator], Value = opStr\<rparr>]\<rparr>))"

text \<open>
  The loop of \<^verbatim>\<open>Equal\<close> walks both sequences position by position. \<^verbatim>\<open>bytes.Equal\<close>
  compares contents. The last equation is the read \<^verbatim>\<open>a1.AsmCodes[i]\<close> past the end, which
  the length test of \<^verbatim>\<open>Equal\<close> excludes.
\<close>

fun Equal_loop :: "AsmCode list \<Rightarrow> AsmCode list \<Rightarrow> bool" where
  "Equal_loop [] a1 = True"
| "Equal_loop (asm # rest) (asm1 # rest1) =
     (if Value asm \<noteq> Value asm1 then False
      else if \<not> (RawByte asm = RawByte asm1) then False
      else Equal_loop rest rest1)"
| "Equal_loop (asm # rest) [] = False"

definition Equal :: "Asm \<Rightarrow> Asm \<Rightarrow> bool" where
  "Equal a a1 =
     (if length (AsmCodes a) \<noteq> length (AsmCodes a1) then False
      else Equal_loop (AsmCodes a) (AsmCodes a1))"

definition ToRawByteCode :: "Asm \<Rightarrow> byte list" where
  "ToRawByteCode a = foldl (\<lambda>result code. result @ RawByte code) [] (AsmCodes a)"

text \<open>A caller's sequence of \<^verbatim>\<open>Emerge\<close> calls on one \<^verbatim>\<open>Asm\<close>, in program order.\<close>

fun emerge_all ::
  "('op, 'err) opcode_Type \<Rightarrow> Asm \<Rightarrow> ('op \<times> byte list list) list \<Rightarrow> Asm" where
  "emerge_all oc a [] = a"
| "emerge_all oc a ((operator, operands) # calls) =
     emerge_all oc (snd (Emerge oc a operator operands)) calls"

text \<open>The units one instruction contributes: the opcode unit, then one unit an operand.\<close>

definition instruction ::
  "('op, 'err) opcode_Type \<Rightarrow> 'op \<Rightarrow> string \<Rightarrow> byte list list \<Rightarrow> AsmCode list" where
  "instruction oc operator opStr operands =
     \<lparr>RawByte = [op_byte oc operator], Value = opStr\<rparr>
       # map (\<lambda>opnd. \<lparr>RawByte = opnd, Value = Sprintf_x opnd\<rparr>) operands"

text \<open>The byte offset of the unit at position \<open>i\<close> in the raw bytecode: the length of the
  raw bytes of the units before it.\<close>

definition unit_offset :: "Asm \<Rightarrow> nat \<Rightarrow> nat" where
  "unit_offset a i = length (ToRawByteCode \<lparr>AsmCodes = take i (AsmCodes a)\<rparr>)"

text \<open>The number of operands of a sequence of \<^verbatim>\<open>Emerge\<close> calls.\<close>

definition operand_count :: "('op \<times> byte list list) list \<Rightarrow> nat" where
  "operand_count calls = sum_list (map (\<lambda>c. length (snd c)) calls)"

subsection \<open>parse/lex.go\<close>

text \<open>
  The token channel is the list of tokens sent so far and a flag for \<^verbatim>\<open>close\<close>. The type
  \<^verbatim>\<open>Token\<close> is declared outside the sources and is a type parameter. A \<^verbatim>\<open>stateFn\<close> value is
  one of the two state functions of the file, or \<^verbatim>\<open>nil\<close>, which is \<open>None\<close>.
\<close>

record state =
  input :: string
  start :: int
  pos :: int
  line :: int

record 'tok Lexer =
  tokench :: "'tok list"
  tokench_closed :: bool

datatype stateFn = DefaultStateFn | NumberStateFn

text \<open>Calling a state function: the next state function, the state and the lexer after it.
  Both bodies are a single \<^verbatim>\<open>return DefaultStateFn\<close>.\<close>

fun call_stateFn ::
  "stateFn \<Rightarrow> state \<Rightarrow> 'tok Lexer \<Rightarrow> stateFn option \<times> state \<times> 'tok Lexer" where
  "call_stateFn DefaultStateFn s e = (Some DefaultStateFn, s, e)"
| "call_stateFn NumberStateFn s e = (Some DefaultStateFn, s, e)"

text \<open>
  The loop \<^verbatim>\<open>for stateFn := DefaultStateFn; stateFn != nil; { stateFn = stateFn(state, l) }\<close>
  of \<^verbatim>\<open>run\<close>, with fuel for the number of iterations: \<open>None\<close> is a loop still running when
  the fuel is spent.
\<close>

fun run_loop ::
  "nat \<Rightarrow> stateFn option \<Rightarrow> state \<Rightarrow> 'tok Lexer \<Rightarrow> (state \<times> 'tok Lexer) option" where
  "run_loop fuel None s l = Some (s, l)"
| "run_loop 0 (Some f) s l = None"
| "run_loop (Suc fuel) (Some f) s l =
     (case call_stateFn f s l of (f', s', l') \<Rightarrow> run_loop fuel f' s' l')"

text \<open>\<^verbatim>\<open>run\<close>: the loop, then \<^verbatim>\<open>close(l.tokench)\<close>.\<close>

definition run :: "nat \<Rightarrow> 'tok Lexer \<Rightarrow> string \<Rightarrow> 'tok Lexer option" where
  "run fuel l inp =
     (case run_loop fuel (Some DefaultStateFn) \<lparr>input = inp, start = 0, pos = 0, line = 0\<rparr> l of
        None \<Rightarrow> None
      | Some (s, l') \<Rightarrow> Some (l'\<lparr>tokench_closed := True\<rparr>))"

subsection \<open>Facts about the tracer\<close>

lemma sint_small:
  "0 \<le> x \<Longrightarrow> x < 2 ^ (LENGTH('w) - 1) \<Longrightarrow> sint (word_of_int x :: 'w::len word) = x"
  by (simp add: sint_sbintrunc' signed_take_bit_int_eq_self)

lemma sint_length:
  "int n < 2 ^ (LENGTH('w) - 1) \<Longrightarrow> sint (word_of_nat n :: 'w::len word) = int n"
  using sint_small [of "int n", where 'w = 'w] by simp

lemma Define_entry:
  "fst (Define m ident val) = \<lparr>Offset = MemoryCounter m, Size = word_of_nat (length val)\<rparr>"
  by (simp add: Define_def Let_def)

lemma Define_counter:
  "MemoryCounter (snd (Define m ident val)) = MemoryCounter m + word_of_nat (length val)"
  by (simp add: Define_def Let_def)

lemma Define_map: "EntryMap (snd (Define m ident val)) = (EntryMap m)(ident \<mapsto> fst (Define m ident val))"
  by (simp add: Define_def Let_def)

lemma total_size_Nil: "total_size [] = 0"
  by (simp add: total_size_def)

lemma total_size_Cons: "total_size (c # cs) = int (length (snd c)) + total_size cs"
  by (simp add: total_size_def)

lemma total_size_append: "total_size (xs @ ys) = total_size xs + total_size ys"
  by (simp add: total_size_def)

lemma total_size_nonneg: "0 \<le> total_size calls"
  by (induction calls) (simp_all add: total_size_Nil total_size_Cons)

lemma total_size_replicate: "total_size (replicate n c) = int n * int (length (snd c))"
  by (induction n) (simp_all add: total_size_Nil total_size_Cons algebra_simps)

lemma total_size_take_nth:
  assumes "k < length calls"
  shows "total_size (take k calls) + int (length (snd (calls ! k))) \<le> total_size calls"
proof -
  have "calls = take k calls @ calls ! k # drop (Suc k) calls"
    using assms by (rule id_take_nth_drop)
  then have "total_size calls
      = total_size (take k calls) + (int (length (snd (calls ! k))) + total_size (drop (Suc k) calls))"
    by (metis total_size_append total_size_Cons)
  then show ?thesis
    using total_size_nonneg [of "drop (Suc k) calls"] by simp
qed

lemma define_all_Cons:
  "define_all m ((ident, val) # calls) =
     (fst (Define m ident val) # fst (define_all (snd (Define m ident val)) calls),
      snd (define_all (snd (Define m ident val)) calls))"
  by (simp split: prod.splits)

lemma define_all_length: "length (fst (define_all m calls)) = length calls"
proof (induction calls arbitrary: m)
  case Nil
  show ?case by simp
next
  case (Cons c calls)
  obtain ident val where c: "c = (ident, val)" by (cases c)
  show ?case
    unfolding c define_all_Cons by (simp add: Cons.IH)
qed

lemma define_all_counter:
  "MemoryCounter (snd (define_all m calls)) = MemoryCounter m + word_of_int (total_size calls)"
proof (induction calls arbitrary: m)
  case Nil
  show ?case by (simp add: total_size_Nil)
next
  case (Cons c calls)
  obtain ident val where c: "c = (ident, val)" by (cases c)
  have "MemoryCounter (snd (define_all m (c # calls)))
      = MemoryCounter (snd (define_all (snd (Define m ident val)) calls))"
    unfolding c define_all_Cons by simp
  also have "\<dots> = MemoryCounter (snd (Define m ident val)) + word_of_int (total_size calls)"
    by (rule Cons.IH)
  finally show ?case
    by (simp add: Define_counter total_size_Cons c)
qed

lemma define_all_append:
  "define_all m (xs @ ys) =
     (fst (define_all m xs) @ fst (define_all (snd (define_all m xs)) ys),
      snd (define_all (snd (define_all m xs)) ys))"
proof (induction xs arbitrary: m)
  case Nil
  show ?case by simp
next
  case (Cons c xs)
  obtain ident val where c: "c = (ident, val)" by (cases c)
  have "define_all m ((c # xs) @ ys) = define_all m ((ident, val) # (xs @ ys))"
    by (simp add: c)
  also have "\<dots> = (fst (Define m ident val) # fst (define_all (snd (Define m ident val)) (xs @ ys)),
      snd (define_all (snd (Define m ident val)) (xs @ ys)))"
    by (rule define_all_Cons)
  finally show ?case
    unfolding c define_all_Cons by (simp add: Cons.IH)
qed

lemma define_all_nth:
  "k < length calls \<Longrightarrow>
   fst (define_all m calls) ! k =
     \<lparr>Offset = MemoryCounter m + word_of_int (total_size (take k calls)),
      Size = word_of_nat (length (snd (calls ! k)))\<rparr>"
proof (induction calls arbitrary: m k)
  case Nil
  then show ?case by simp
next
  case (Cons c calls)
  obtain ident val where c: "c = (ident, val)" by (cases c)
  show ?case
  proof (cases k)
    case 0
    then show ?thesis
      unfolding c define_all_Cons by (simp add: Define_entry total_size_Nil)
  next
    case (Suc j)
    with Cons.prems have j: "j < length calls" by simp
    have "fst (define_all m (c # calls)) ! k = fst (define_all (snd (Define m ident val)) calls) ! j"
      unfolding c define_all_Cons by (simp add: Suc)
    also have "\<dots> = \<lparr>Offset = MemoryCounter (snd (Define m ident val))
                               + word_of_int (total_size (take j calls)),
                      Size = word_of_nat (length (snd (calls ! j)))\<rparr>"
      by (rule Cons.IH [OF j])
    finally show ?thesis
      by (simp add: Suc c Define_counter total_size_Cons)
  qed
qed

lemma define_all_stored:
  assumes "k < length calls"
  shows "EntryMap (snd (define_all m (take (Suc k) calls))) (fst (calls ! k))
           = Some (fst (define_all m calls) ! k)"
proof -
  let ?m = "snd (define_all m (take k calls))"
  obtain ident val where c: "calls ! k = (ident, val)" by (cases "calls ! k")
  have split: "calls = take k calls @ (ident, val) # drop (Suc k) calls"
    using assms c by (metis id_take_nth_drop)
  have tk: "take (Suc k) calls = take k calls @ [(ident, val)]"
    using assms c by (simp add: take_Suc_conv_app_nth)
  have lk: "length (fst (define_all m (take k calls))) = k"
    using assms by (simp add: define_all_length)
  have "fst (define_all m calls) ! k
      = (fst (define_all m (take k calls)) @ fst (define_all ?m ((ident, val) # drop (Suc k) calls))) ! k"
    by (subst split) (simp add: define_all_append)
  also have "\<dots> = fst (define_all ?m ((ident, val) # drop (Suc k) calls)) ! 0"
    using lk by (simp add: nth_append)
  also have "\<dots> = fst (Define ?m ident val)"
    unfolding define_all_Cons by simp
  finally have e: "fst (define_all m calls) ! k = fst (Define ?m ident val)" .
  have "EntryMap (snd (define_all m (take (Suc k) calls))) = EntryMap (snd (Define ?m ident val))"
    unfolding tk define_all_append define_all_Cons by simp
  then show ?thesis
    by (simp add: Define_map e c)
qed

lemma Define_dom: "dom (EntryMap (snd (Define m ident val))) = insert ident (dom (EntryMap m))"
  by (simp add: Define_map)

lemma Define_recorded:
  fixes m :: "'w::len word MemEntryTable"
  assumes "ident \<notin> dom (EntryMap m)" and "finite (dom (EntryMap m))"
    and "int (length val) < 2 ^ (LENGTH('w) - 1)"
  shows "recorded_sizes (snd (Define m ident val)) = recorded_sizes m + int (length val)"
proof -
  let ?e = "fst (Define m ident val)"
  have "recorded_sizes (snd (Define m ident val))
      = (\<Sum>k \<in> insert ident (dom (EntryMap m)). sint (Size (the (((EntryMap m)(ident \<mapsto> ?e)) k))))"
    by (simp add: recorded_sizes_def Define_map)
  also have "\<dots> = sint (Size ?e)
       + (\<Sum>k \<in> dom (EntryMap m). sint (Size (the (((EntryMap m)(ident \<mapsto> ?e)) k))))"
    using assms(1,2) by (simp add: sum.insert)
  also have "(\<Sum>k \<in> dom (EntryMap m). sint (Size (the (((EntryMap m)(ident \<mapsto> ?e)) k))))
           = (\<Sum>k \<in> dom (EntryMap m). sint (Size (the (EntryMap m k))))"
    using assms(1) by (intro sum.cong) auto
  also have "sint (Size ?e) = int (length val)"
    using assms(3) by (simp add: Define_entry sint_length)
  finally show ?thesis
    by (simp add: recorded_sizes_def)
qed

lemma define_all_recorded:
  fixes m :: "'w::len word MemEntryTable"
  shows "finite (dom (EntryMap m)) \<Longrightarrow> distinct (map fst calls) \<Longrightarrow>
   fst ` set calls \<inter> dom (EntryMap m) = {} \<Longrightarrow>
   total_size calls < 2 ^ (LENGTH('w) - 1) \<Longrightarrow>
   recorded_sizes (snd (define_all m calls)) = recorded_sizes m + total_size calls"
proof (induction calls arbitrary: m)
  case Nil
  show ?case by (simp add: total_size_Nil)
next
  case (Cons c calls)
  obtain ident val where c: "c = (ident, val)" by (cases c)
  let ?m = "snd (Define m ident val)"
  have fresh: "ident \<notin> dom (EntryMap m)"
    using Cons.prems(3) by (auto simp: c)
  have fin: "finite (dom (EntryMap ?m))"
    using Cons.prems(1) by (simp add: Define_dom)
  have dist: "distinct (map fst calls)" and notin: "ident \<notin> fst ` set calls"
    using Cons.prems(2) by (auto simp: c)
  have disj: "fst ` set calls \<inter> dom (EntryMap ?m) = {}"
    using Cons.prems(3) notin by (auto simp: Define_dom c)
  have sum: "int (length val) + total_size calls < 2 ^ (LENGTH('w) - 1)"
    using Cons.prems(4) by (simp add: total_size_Cons c)
  have small: "int (length val) < 2 ^ (LENGTH('w) - 1)"
    and rest: "total_size calls < 2 ^ (LENGTH('w) - 1)"
    using sum total_size_nonneg [of calls] by linarith+
  have "recorded_sizes (snd (define_all m (c # calls))) = recorded_sizes (snd (define_all ?m calls))"
    unfolding c define_all_Cons by simp
  also have "\<dots> = recorded_sizes ?m + total_size calls"
    by (rule Cons.IH [OF fin dist disj rest])
  also have "recorded_sizes ?m = recorded_sizes m + int (length val)"
    by (rule Define_recorded [OF fresh Cons.prems(1) small])
  finally show ?case
    by (simp add: total_size_Cons c)
qed

lemma recorded_sizes_New: "recorded_sizes NewMemEntryTable = 0"
  by (simp add: recorded_sizes_def NewMemEntryTable_def)

lemma counter_New: "MemoryCounter (snd (define_all NewMemEntryTable calls)) = word_of_int (total_size calls)"
  by (simp add: define_all_counter NewMemEntryTable_def)

lemma nth_New:
  "k < length calls \<Longrightarrow>
   fst (define_all NewMemEntryTable calls) ! k =
     \<lparr>Offset = word_of_int (total_size (take k calls)),
      Size = word_of_nat (length (snd (calls ! k)))\<rparr>"
  by (simp add: define_all_nth NewMemEntryTable_def)

subsection \<open>Claims about the tracer\<close>

text \<open>
  C1, as stated: after any sequence of \<^verbatim>\<open>Define\<close> calls \<^verbatim>\<open>MemoryCounter\<close> is the sum of the
  sizes. Go's \<^verbatim>\<open>int\<close> wraps around. With a 32-bit \<^verbatim>\<open>int\<close>, defining \<^verbatim>\<open>a\<close> and \<^verbatim>\<open>b\<close>
  with values of \<open>2 ^ 30\<close> bytes each leaves a counter of \<open>- (2 ^ 31)\<close>, and the sizes sum
  to \<open>2 ^ 31\<close>. With a 64-bit \<^verbatim>\<open>int\<close>, \<open>2 ^ 33\<close> calls with a value of \<open>2 ^ 30\<close> bytes
  leave \<open>- (2 ^ 63)\<close>.
\<close>

theorem Define_sequence_wraps_counterexample:
  "sint (MemoryCounter (snd (define_all (NewMemEntryTable :: 32 word MemEntryTable)
      [(''a'', replicate (2 ^ 30) 0), (''b'', replicate (2 ^ 30) 0)]))) = - (2 ^ 31) \<and>
   total_size [(''a'', replicate (2 ^ 30) 0), (''b'', replicate (2 ^ 30) 0)] = 2 ^ 31 \<and>
   sint (MemoryCounter (snd (define_all (NewMemEntryTable :: 64 word MemEntryTable)
      (replicate (2 ^ 33) (''a'', replicate (2 ^ 30) 0))))) = - (2 ^ 63) \<and>
   total_size (replicate (2 ^ 33) (''a'', replicate (2 ^ 30) 0)) = 2 ^ 63"
proof -
  have t32: "total_size [(''a'', replicate (2 ^ 30) 0), (''b'', replicate (2 ^ 30) 0)] = 2 ^ 31"
    by (simp add: total_size_def)
  have t64: "total_size (replicate (2 ^ 33) (''a'', replicate (2 ^ 30) 0)) = 2 ^ 63"
    by (simp add: total_size_replicate)
  have s32: "sint (word_of_int (2 ^ 31) :: 32 word) = - (2 ^ 31)"
    by (simp add: int_word_sint)
  have s64: "sint (word_of_int (2 ^ 63) :: 64 word) = - (2 ^ 63)"
    by (simp add: int_word_sint)
  show ?thesis
    unfolding counter_New t32 t64 using s32 s64 by simp
qed

text \<open>
  C1, amended. For a sequence of \<^verbatim>\<open>Define\<close> calls on a new table with values of sizes
  \<open>s1..sn\<close> whose sum is below \<open>2 ^ (w - 1)\<close>, \<open>w\<close> the width of \<^verbatim>\<open>int\<close>: the \<open>k\<close>-th call
  returns the entry whose \<^verbatim>\<open>Offset\<close> is the sum of the sizes before it and whose
  \<^verbatim>\<open>Size\<close> is the length of its value, and after all calls \<^verbatim>\<open>MemoryCounter\<close> is the sum of
  all the sizes. Whatever the sum, right after the \<open>k\<close>-th call the \<^verbatim>\<open>EntryMap\<close> holds
  the returned entry under the call's id, and \<^verbatim>\<open>Offset\<close>, \<^verbatim>\<open>Size\<close> and \<^verbatim>\<open>MemoryCounter\<close>
  are these sums modulo \<open>2 ^ w\<close>.
\<close>

theorem Define_sequence_additive:
  fixes calls :: "(string \<times> byte list) list"
  defines "entries \<equiv> fst (define_all (NewMemEntryTable :: 'w::len word MemEntryTable) calls)"
    and "final \<equiv> snd (define_all (NewMemEntryTable :: 'w word MemEntryTable) calls)"
  shows "length entries = length calls \<and>
   MemoryCounter final = word_of_int (total_size calls) \<and>
   (\<forall>k < length calls.
      entries ! k = \<lparr>Offset = word_of_int (total_size (take k calls)),
                     Size = word_of_nat (length (snd (calls ! k)))\<rparr> \<and>
      EntryMap (snd (define_all NewMemEntryTable (take (Suc k) calls))) (fst (calls ! k))
        = Some (entries ! k)) \<and>
   (total_size calls < 2 ^ (LENGTH('w) - 1) \<longrightarrow>
      sint (MemoryCounter final) = total_size calls \<and>
      (\<forall>k < length calls.
         sint (Offset (entries ! k)) = total_size (take k calls) \<and>
         sint (Size (entries ! k)) = int (length (snd (calls ! k)))))"
proof (intro conjI allI impI)
  show "length entries = length calls"
    by (simp add: entries_def define_all_length)
  show c: "MemoryCounter final = word_of_int (total_size calls)"
    by (simp add: final_def counter_New)
  {
    fix k assume k: "k < length calls"
    show "entries ! k = \<lparr>Offset = word_of_int (total_size (take k calls)),
                     Size = word_of_nat (length (snd (calls ! k)))\<rparr>"
      by (simp add: entries_def nth_New [OF k])
    show "EntryMap (snd (define_all NewMemEntryTable (take (Suc k) calls))) (fst (calls ! k))
        = Some (entries ! k)"
      unfolding entries_def by (rule define_all_stored [OF k])
  }
  assume bound: "total_size calls < 2 ^ (LENGTH('w) - 1)"
  show "sint (MemoryCounter final) = total_size calls"
    by (simp add: c sint_small [OF total_size_nonneg bound])
  fix k assume k: "k < length calls"
  have le: "total_size (take k calls) + int (length (snd (calls ! k))) \<le> total_size calls"
    by (rule total_size_take_nth [OF k])
  have off: "total_size (take k calls) < 2 ^ (LENGTH('w) - 1)"
    and size: "int (length (snd (calls ! k))) < 2 ^ (LENGTH('w) - 1)"
    using le bound total_size_nonneg [of "take k calls"] by linarith+
  show "sint (Offset (entries ! k)) = total_size (take k calls)"
    by (simp add: entries_def nth_New [OF k] sint_small [OF total_size_nonneg off])
  show "sint (Size (entries ! k)) = int (length (snd (calls ! k)))"
    using sint_length [OF size] by (simp add: entries_def nth_New [OF k])
qed

text \<open>The scenario of the specification, on a 64-bit \<^verbatim>\<open>int\<close>: \<^verbatim>\<open>a = 5\<close> (one byte), then
  \<^verbatim>\<open>b = "ab"\<close>.\<close>

theorem Define_sequence_additive_witness:
  "total_size [(''a'', [5]), (''b'', [97, 98])] < 2 ^ (LENGTH(64) - 1) \<and>
   fst (define_all (NewMemEntryTable :: 64 word MemEntryTable) [(''a'', [5]), (''b'', [97, 98])]) ! 1
     = \<lparr>Offset = 1, Size = 2\<rparr> \<and>
   sint (Offset (fst (define_all (NewMemEntryTable :: 64 word MemEntryTable)
                        [(''a'', [5]), (''b'', [97, 98])]) ! 1)) = 1 \<and>
   sint (Size (fst (define_all (NewMemEntryTable :: 64 word MemEntryTable)
                        [(''a'', [5]), (''b'', [97, 98])]) ! 1)) = 2 \<and>
   EntryMap (snd (define_all (NewMemEntryTable :: 64 word MemEntryTable)
                        [(''a'', [5]), (''b'', [97, 98])])) ''b''
     = Some \<lparr>Offset = 1, Size = 2\<rparr> \<and>
   sint (MemoryCounter (snd (define_all (NewMemEntryTable :: 64 word MemEntryTable)
                        [(''a'', [5]), (''b'', [97, 98])]))) = 3"
proof -
  let ?calls = "[(''a'', [5 :: byte]), (''b'', [97, 98])]"
  let ?new = "NewMemEntryTable :: 64 word MemEntryTable"
  have k: "(1::nat) < length ?calls" by simp
  have t: "total_size ?calls = 3" and t1: "total_size (take 1 ?calls) = 1"
    by (simp_all add: total_size_def)
  have bound: "total_size ?calls < 2 ^ (LENGTH(64) - 1)"
    by (simp add: t)
  have nth: "fst (define_all ?new ?calls) ! 1 =
        \<lparr>Offset = word_of_int (total_size (take 1 ?calls)),
         Size = word_of_nat (length (snd (?calls ! 1)))\<rparr>"
    and stored: "EntryMap (snd (define_all ?new (take (Suc 1) ?calls))) (fst (?calls ! 1)) =
        Some (fst (define_all ?new ?calls) ! 1)"
    and counter: "sint (MemoryCounter (snd (define_all ?new ?calls))) = total_size ?calls"
    and off: "sint (Offset (fst (define_all ?new ?calls) ! 1)) = total_size (take 1 ?calls)"
    and size: "sint (Size (fst (define_all ?new ?calls) ! 1)) = int (length (snd (?calls ! 1)))"
    using Define_sequence_additive [of ?calls, where 'w = 64] k bound by blast+
  have e: "fst (define_all ?new ?calls) ! 1 = \<lparr>Offset = 1, Size = 2\<rparr>"
    unfolding nth t1 by simp
  have "EntryMap (snd (define_all ?new ?calls)) ''b'' = Some \<lparr>Offset = 1, Size = 2\<rparr>"
    using stored unfolding e by simp
  moreover have "sint (MemoryCounter (snd (define_all ?new ?calls))) = 3"
    using counter unfolding t .
  moreover have "sint (Offset (fst (define_all ?new ?calls) ! 1)) = 1"
    using off unfolding t1 .
  moreover have "sint (Size (fst (define_all ?new ?calls) ! 1)) = 2"
    using size by simp
  ultimately show ?thesis
    using e bound by simp
qed

text \<open>
  C3, as stated: after any sequence of \<^verbatim>\<open>Define\<close> calls, also one that reuses an id,
  \<^verbatim>\<open>MemoryCounter\<close> is the sum of the \<^verbatim>\<open>Size\<close> fields of the entries in \<^verbatim>\<open>EntryMap\<close>.
  Defining \<^verbatim>\<open>a\<close> with one byte and then \<^verbatim>\<open>a\<close> again with two bytes leaves one entry of
  size 2 in the map and a counter of 3. With distinct ids the counter still wraps around:
  on a 32-bit \<^verbatim>\<open>int\<close>, two values of \<open>2 ^ 30\<close> bytes leave a counter of \<open>- (2 ^ 31)\<close> and
  recorded sizes that sum to \<open>2 ^ 31\<close>.
\<close>

theorem MemoryCounter_recorded_counterexample:
  "sint (MemoryCounter (snd (define_all (NewMemEntryTable :: 64 word MemEntryTable)
      [(''a'', [5]), (''a'', [97, 98])]))) = 3 \<and>
   recorded_sizes (snd (define_all (NewMemEntryTable :: 64 word MemEntryTable)
      [(''a'', [5]), (''a'', [97, 98])])) = 2 \<and>
   sint (MemoryCounter (snd (define_all (NewMemEntryTable :: 32 word MemEntryTable)
      [(''a'', replicate (2 ^ 30) 0), (''b'', replicate (2 ^ 30) 0)]))) = - (2 ^ 31) \<and>
   recorded_sizes (snd (define_all (NewMemEntryTable :: 32 word MemEntryTable)
      [(''a'', replicate (2 ^ 30) 0), (''b'', replicate (2 ^ 30) 0)])) = 2 ^ 31"
proof -
  have redefined: "sint (MemoryCounter (snd (define_all (NewMemEntryTable :: 64 word MemEntryTable)
      [(''a'', [5]), (''a'', [97, 98])]))) = 3 \<and>
   recorded_sizes (snd (define_all (NewMemEntryTable :: 64 word MemEntryTable)
      [(''a'', [5]), (''a'', [97, 98])])) = 2"
    by (simp add: recorded_sizes_def Define_def NewMemEntryTable_def Let_def)
  have t32: "total_size [(''a'', replicate (2 ^ 30) 0), (''b'', replicate (2 ^ 30) 0)] = 2 ^ 31"
    by (simp add: total_size_def)
  have s32: "sint (word_of_int (2 ^ 31) :: 32 word) = - (2 ^ 31)"
    by (simp add: int_word_sint)
  have counter: "sint (MemoryCounter (snd (define_all (NewMemEntryTable :: 32 word MemEntryTable)
      [(''a'', replicate (2 ^ 30) 0), (''b'', replicate (2 ^ 30) 0)]))) = - (2 ^ 31)"
    unfolding counter_New t32 by (rule s32)
  have one: "sint (word_of_nat (2 ^ 30) :: 32 word) = 2 ^ 30"
    using sint_length [of "2 ^ 30", where 'w = 32] by simp
  have "recorded_sizes (snd (define_all (NewMemEntryTable :: 32 word MemEntryTable)
      [(''a'', replicate (2 ^ 30) 0), (''b'', replicate (2 ^ 30) 0)])) = 2 ^ 30 + 2 ^ 30"
    using one by (simp add: recorded_sizes_def Define_def NewMemEntryTable_def Let_def)
  then show ?thesis
    using redefined counter by simp
qed

text \<open>
  C3, amended: after any sequence of \<^verbatim>\<open>Define\<close> calls on a new table, \<^verbatim>\<open>MemoryCounter\<close> is
  the \<^verbatim>\<open>Offset\<close> the next \<^verbatim>\<open>Define\<close> assigns and is the sum of the sizes of all the values
  defined, a redefinition counted again, modulo \<open>2 ^ w\<close> for an \<^verbatim>\<open>int\<close> of \<open>w\<close> bits. When
  that sum is below \<open>2 ^ (w - 1)\<close> the counter is the sum itself, and when moreover the ids
  of the calls are pairwise distinct it is the sum of the \<^verbatim>\<open>Size\<close> fields of the entries
  in \<^verbatim>\<open>EntryMap\<close>.
\<close>

theorem MemoryCounter_invariant:
  fixes calls :: "(string \<times> byte list) list"
  defines "final \<equiv> snd (define_all (NewMemEntryTable :: 'w::len word MemEntryTable) calls)"
  shows "MemoryCounter final = word_of_int (total_size calls) \<and>
   Offset (fst (Define final ident val)) = MemoryCounter final \<and>
   (total_size calls < 2 ^ (LENGTH('w) - 1) \<longrightarrow>
      sint (MemoryCounter final) = total_size calls \<and>
      (distinct (map fst calls) \<longrightarrow> sint (MemoryCounter final) = recorded_sizes final))"
proof (intro conjI impI)
  show c: "MemoryCounter final = word_of_int (total_size calls)"
    by (simp add: final_def counter_New)
  show "Offset (fst (Define final ident val)) = MemoryCounter final"
    by (simp add: Define_entry)
  assume bound: "total_size calls < 2 ^ (LENGTH('w) - 1)"
  show s: "sint (MemoryCounter final) = total_size calls"
    by (simp add: c sint_small [OF total_size_nonneg bound])
  assume d: "distinct (map fst calls)"
  have "recorded_sizes final = recorded_sizes (NewMemEntryTable :: 'w word MemEntryTable) + total_size calls"
    unfolding final_def
    by (rule define_all_recorded [OF _ d _ bound]) (simp_all add: NewMemEntryTable_def)
  then show "sint (MemoryCounter final) = recorded_sizes final"
    by (simp add: s recorded_sizes_New)
qed

theorem MemoryCounter_invariant_witness:
  "total_size [(''a'', [5]), (''b'', [97, 98])] < 2 ^ (LENGTH(64) - 1) \<and>
   distinct (map fst [(''a'', [5 :: byte]), (''b'', [97, 98])]) \<and>
   sint (MemoryCounter (snd (define_all (NewMemEntryTable :: 64 word MemEntryTable)
      [(''a'', [5]), (''b'', [97, 98])]))) = 3 \<and>
   recorded_sizes (snd (define_all (NewMemEntryTable :: 64 word MemEntryTable)
      [(''a'', [5]), (''b'', [97, 98])])) = 3 \<and>
   Offset (fst (Define (snd (define_all (NewMemEntryTable :: 64 word MemEntryTable)
      [(''a'', [5]), (''b'', [97, 98])])) ''c'' [7])) = 3"
proof -
  let ?calls = "[(''a'', [5 :: byte]), (''b'', [97, 98])]"
  let ?final = "snd (define_all (NewMemEntryTable :: 64 word MemEntryTable) ?calls)"
  have d: "distinct (map fst ?calls)" by simp
  have t: "total_size ?calls = 3"
    by (simp add: total_size_def)
  have bound: "total_size ?calls < 2 ^ (LENGTH(64) - 1)"
    by (simp add: t)
  have counter: "sint (MemoryCounter ?final) = total_size ?calls"
    and word: "MemoryCounter ?final = word_of_int (total_size ?calls)"
    and next_offset: "Offset (fst (Define ?final ''c'' [7])) = MemoryCounter ?final"
    and recorded: "sint (MemoryCounter ?final) = recorded_sizes ?final"
    using MemoryCounter_invariant [of ?calls "''c''" "[7]", where 'w = 64] d bound by blast+
  have "sint (MemoryCounter ?final) = 3"
    using counter unfolding t .
  moreover have "recorded_sizes ?final = 3"
    using recorded counter unfolding t by simp
  moreover have "Offset (fst (Define ?final ''c'' [7])) = 3"
    unfolding next_offset word t by simp
  ultimately show ?thesis
    using d bound by simp
qed

text \<open>
  C9. For an id that is not in \<^verbatim>\<open>EntryMap\<close>, \<^verbatim>\<open>GetOffsetOfEntry\<close> and \<^verbatim>\<open>GetSizeOfEntry\<close>
  return 0 and an \<^verbatim>\<open>EntryError\<close> carrying that id, whose message is the id in brackets
  followed by \<^verbatim>\<open>definition doesn't exist\<close>; for an id that is in the map they return the
  stored entry's \<^verbatim>\<open>Offset\<close>, respectively \<^verbatim>\<open>Size\<close>, and the \<^verbatim>\<open>nil\<close> error.
\<close>

theorem Get_entry_results:
  "(EntryMap m ident = None \<longrightarrow>
      GetOffsetOfEntry m ident = (0, Some (EntryError ident)) \<and>
      GetSizeOfEntry m ident = (0, Some (EntryError ident)) \<and>
      Error (EntryError ident) = ''['' @ ident @ ''] definition doesn't exist'') \<and>
   (\<forall>entry. EntryMap m ident = Some entry \<longrightarrow>
      GetOffsetOfEntry m ident = (Offset entry, None) \<and>
      GetSizeOfEntry m ident = (Size entry, None))"
  by (simp add: GetOffsetOfEntry_def GetSizeOfEntry_def Error_def)

theorem Get_entry_results_witness:
  "GetOffsetOfEntry (snd (Define (NewMemEntryTable :: 64 word MemEntryTable) ''a'' [5])) ''b''
     = (0, Some (EntryError ''b'')) \<and>
   GetSizeOfEntry (snd (Define (NewMemEntryTable :: 64 word MemEntryTable) ''a'' [5])) ''b''
     = (0, Some (EntryError ''b'')) \<and>
   Error (EntryError ''b'') = ''[b] definition doesn't exist'' \<and>
   GetOffsetOfEntry (snd (Define (NewMemEntryTable :: 64 word MemEntryTable) ''a'' [5])) ''a''
     = (0, None) \<and>
   GetSizeOfEntry (snd (Define (NewMemEntryTable :: 64 word MemEntryTable) ''a'' [5])) ''a''
     = (1, None)"
proof -
  let ?m = "snd (Define (NewMemEntryTable :: 64 word MemEntryTable) ''a'' [5])"
  have absent: "EntryMap ?m ''b'' = None"
    and present: "EntryMap ?m ''a'' = Some \<lparr>Offset = 0, Size = 1\<rparr>"
    by (simp_all add: Define_def NewMemEntryTable_def Let_def)
  show ?thesis
    using Get_entry_results [of ?m "''b''"] Get_entry_results [of ?m "''a''"] absent present
    by simp
qed

subsection \<open>Facts about the assembler\<close>

lemma foldl_snoc_map: "foldl (\<lambda>acc x. acc @ [f x]) acc xs = acc @ map f xs"
  by (induction xs arbitrary: acc) simp_all

lemma convert_Inr:
  "op_String oc operator = Inr opStr \<Longrightarrow>
   convert oc operator operands = Inr (instruction oc operator opStr operands)"
  by (simp add: convert_def instruction_def foldl_snoc_map)

lemma convert_Inl: "op_String oc operator = Inl err \<Longrightarrow> convert oc operator operands = Inl err"
  by (simp add: convert_def)

lemma length_instruction: "length (instruction oc operator opStr operands) = Suc (length operands)"
  by (simp add: instruction_def)

lemma foldl_RawByte:
  "foldl (\<lambda>result code. result @ RawByte code) acc (xs :: AsmCode list) = acc @ concat (map RawByte xs)"
  by (induction xs arbitrary: acc) simp_all

lemma ToRawByteCode_concat: "ToRawByteCode a = concat (map RawByte (AsmCodes a))"
  by (simp add: ToRawByteCode_def foldl_RawByte)

lemma raw_instruction:
  "\<forall>opnd \<in> set operands. length opnd = 4 \<Longrightarrow>
   length (concat (map RawByte (instruction oc operator opStr operands))) = 1 + 4 * length operands"
  by (induction operands) (simp_all add: instruction_def)

lemma Emerge_Inr:
  "op_String oc operator = Inr opStr \<Longrightarrow>
   Emerge oc a operator operands =
     (int (length (AsmCodes a)) + 1 + int (length operands),
      a\<lparr>AsmCodes := AsmCodes a @ instruction oc operator opStr operands\<rparr>)"
  by (simp add: Emerge_def convert_Inr Let_def length_instruction)

lemma emerge_all_raw_length:
  "\<forall>(operator, operands) \<in> set calls.
      (\<exists>opStr. op_String oc operator = Inr opStr) \<and> (\<forall>opnd \<in> set operands. length opnd = 4) \<Longrightarrow>
   length (ToRawByteCode (emerge_all oc a calls))
     = length (ToRawByteCode a) + length calls + 4 * operand_count calls"
proof (induction calls arbitrary: a)
  case Nil
  show ?case by (simp add: operand_count_def)
next
  case (Cons c calls)
  obtain operator operands where c: "c = (operator, operands)" by (cases c)
  from Cons.prems obtain opStr where s: "op_String oc operator = Inr opStr"
    and four: "\<forall>opnd \<in> set operands. length opnd = 4"
    by (auto simp: c)
  from Cons.prems have rest: "\<forall>(operator, operands) \<in> set calls.
      (\<exists>opStr. op_String oc operator = Inr opStr) \<and> (\<forall>opnd \<in> set operands. length opnd = 4)"
    by simp
  let ?a = "a\<lparr>AsmCodes := AsmCodes a @ instruction oc operator opStr operands\<rparr>"
  have "emerge_all oc a (c # calls) = emerge_all oc ?a calls"
    by (simp add: c Emerge_Inr [OF s])
  then have "length (ToRawByteCode (emerge_all oc a (c # calls)))
      = length (ToRawByteCode ?a) + length calls + 4 * operand_count calls"
    by (simp add: Cons.IH [OF rest])
  also have "length (ToRawByteCode ?a) = length (ToRawByteCode a) + (1 + 4 * length operands)"
    by (simp add: ToRawByteCode_concat raw_instruction [OF four])
  finally show ?case
    by (simp add: operand_count_def c)
qed

lemma unit_offset_concat: "unit_offset a i = length (concat (map RawByte (take i (AsmCodes a))))"
  by (simp add: unit_offset_def ToRawByteCode_concat)

lemma Equal_loop_iff: "length xs = length ys \<Longrightarrow> Equal_loop xs ys \<longleftrightarrow> xs = ys"
  by (induction xs ys rule: Equal_loop.induct) auto

lemma Equal_iff: "Equal a b \<longleftrightarrow> AsmCodes a = AsmCodes b"
  using Equal_loop_iff by (auto simp: Equal_def)

subsection \<open>Claims about the assembler\<close>

text \<open>
  C4. \<^verbatim>\<open>Emerge\<close> with an opcode whose \<^verbatim>\<open>String()\<close> fails returns 0 and leaves the \<^verbatim>\<open>Asm\<close>
  as it was; with a recognized opcode and \<open>n\<close> operands it appends the opcode unit and then
  the \<open>n\<close> operand units in order, and returns the new number of units.
\<close>

theorem Emerge_result:
  "(\<forall>err. op_String oc operator = Inl err \<longrightarrow> Emerge oc a operator operands = (0, a)) \<and>
   (\<forall>opStr. op_String oc operator = Inr opStr \<longrightarrow>
      Emerge oc a operator operands =
        (int (length (AsmCodes a)) + 1 + int (length operands),
         a\<lparr>AsmCodes := AsmCodes a @
              \<lparr>RawByte = [op_byte oc operator], Value = opStr\<rparr>
                # map (\<lambda>opnd. \<lparr>RawByte = opnd, Value = Sprintf_x opnd\<rparr>) operands\<rparr>))"
  by (simp add: Emerge_def convert_def foldl_snoc_map Let_def)

theorem Emerge_result_witness:
  "Emerge push_only \<lparr>AsmCodes = [\<lparr>RawByte = [0x21], Value = ''Push''\<rparr>]\<rparr> 0x22 [[0, 0, 0, 1]]
     = (0, \<lparr>AsmCodes = [\<lparr>RawByte = [0x21], Value = ''Push''\<rparr>]\<rparr>) \<and>
   Emerge push_only \<lparr>AsmCodes = [\<lparr>RawByte = [0x21], Value = ''Push''\<rparr>]\<rparr> 0x21 [[0, 0, 0, 1]]
     = (3, \<lparr>AsmCodes = [\<lparr>RawByte = [0x21], Value = ''Push''\<rparr>,
                          \<lparr>RawByte = [0x21], Value = ''Push''\<rparr>,
                          \<lparr>RawByte = [0, 0, 0, 1], Value = ''00000001''\<rparr>]\<rparr>)"
proof -
  let ?a = "\<lparr>AsmCodes = [\<lparr>RawByte = [0x21], Value = ''Push''\<rparr>]\<rparr>"
  have bad: "op_String push_only (0x22 :: byte) = Inl ()"
    and good: "op_String push_only (0x21 :: byte) = Inr ''Push''"
    by (simp_all add: push_only_def)
  show ?thesis
    using Emerge_result [of push_only "0x22" ?a "[[0, 0, 0, 1]]"]
      Emerge_result [of push_only "0x21" ?a "[[0, 0, 0, 1]]"] bad good
    by (simp add: Sprintf_x_def hex_digit_def push_only_def)
qed

text \<open>
  C5. After a sequence of \<^verbatim>\<open>Emerge\<close> calls on an empty \<^verbatim>\<open>Asm\<close>, each with a recognized
  opcode and operands of 4 bytes, the raw bytecode has one byte for each call and four for
  each operand.
\<close>

theorem ToRawByteCode_length:
  assumes "\<forall>(operator, operands) \<in> set calls.
      (\<exists>opStr. op_String oc operator = Inr opStr) \<and> (\<forall>opnd \<in> set operands. length opnd = 4)"
  shows "length (ToRawByteCode (emerge_all oc \<lparr>AsmCodes = []\<rparr> calls))
     = length calls + 4 * operand_count calls"
  using emerge_all_raw_length [OF assms, of "\<lparr>AsmCodes = []\<rparr>"]
  by (simp add: ToRawByteCode_def)

theorem ToRawByteCode_length_witness:
  "length (ToRawByteCode (emerge_all push_only \<lparr>AsmCodes = []\<rparr>
      [(0x21, [[0, 0, 0, 1]]), (0x21, []), (0x21, [[0, 0, 0, 2], [0, 0, 0, 3]])])) = 15"
proof -
  let ?calls = "[(0x21 :: byte, [[0, 0, 0, 1 :: byte]]), (0x21, []), (0x21, [[0, 0, 0, 2], [0, 0, 0, 3]])]"
  have "\<forall>(operator, operands) \<in> set ?calls.
      (\<exists>opStr. op_String push_only operator = Inr opStr) \<and> (\<forall>opnd \<in> set operands. length opnd = 4)"
    by (simp add: push_only_def)
  from ToRawByteCode_length [OF this] show ?thesis
    by (simp add: operand_count_def)
qed

text \<open>
  C6, as stated: \<^verbatim>\<open>ReplaceOperandAt\<close> at any index in bounds with a 4-byte value leaves the
  length of the raw bytecode unchanged. Replacing the one-byte opcode unit at index 0 of
  \<^verbatim>\<open>[Push 00000001]\<close> makes the raw bytecode 8 bytes long instead of 5.
\<close>

theorem ReplaceOperandAt_length_counterexample:
  "ReplaceOperandAt
     \<lparr>AsmCodes = [\<lparr>RawByte = [0x21], Value = ''Push''\<rparr>,
                  \<lparr>RawByte = [0, 0, 0, 1], Value = ''00000001''\<rparr>]\<rparr> 0 [0, 0, 0, 2]
     = Inr \<lparr>AsmCodes = [\<lparr>RawByte = [0, 0, 0, 2], Value = ''00000002''\<rparr>,
                        \<lparr>RawByte = [0, 0, 0, 1], Value = ''00000001''\<rparr>]\<rparr> \<and>
   length (ToRawByteCode \<lparr>AsmCodes = [\<lparr>RawByte = [0, 0, 0, 2], Value = ''00000002''\<rparr>,
                        \<lparr>RawByte = [0, 0, 0, 1], Value = ''00000001''\<rparr>]\<rparr>) = 8 \<and>
   length (ToRawByteCode \<lparr>AsmCodes = [\<lparr>RawByte = [0x21], Value = ''Push''\<rparr>,
                  \<lparr>RawByte = [0, 0, 0, 1], Value = ''00000001''\<rparr>]\<rparr>) = 5"
  by (simp add: ReplaceOperandAt_def ToRawByteCode_def Sprintf_x_def hex_digit_def)

text \<open>
  C6, amended: \<^verbatim>\<open>ReplaceOperandAt\<close> at an index in bounds with a 4-byte value overwrites
  the unit at that index only, keeps the number of units, and the raw bytecode then has
  the new bytes at the byte offset where the old unit began; the raw bytecode keeps its
  length when the unit replaced had 4 raw bytes.
\<close>

theorem ReplaceOperandAt_frame:
  assumes "0 \<le> index" and "index < int (length (AsmCodes a))" and "length operands = 4"
  shows "\<exists>a'. ReplaceOperandAt a index operands = Inr a' \<and>
     length (AsmCodes a') = length (AsmCodes a) \<and>
     AsmCodes a' ! nat index = \<lparr>RawByte = operands, Value = Sprintf_x operands\<rparr> \<and>
     (\<forall>j < length (AsmCodes a). j \<noteq> nat index \<longrightarrow> AsmCodes a' ! j = AsmCodes a ! j) \<and>
     unit_offset a' (nat index) = unit_offset a (nat index) \<and>
     take 4 (drop (unit_offset a (nat index)) (ToRawByteCode a')) = operands \<and>
     (length (RawByte (AsmCodes a ! nat index)) = 4 \<longrightarrow>
        length (ToRawByteCode a') = length (ToRawByteCode a))"
proof -
  let ?i = "nat index"
  let ?u = "\<lparr>RawByte = operands, Value = Sprintf_x operands\<rparr>"
  let ?xs = "AsmCodes a"
  let ?a' = "a\<lparr>AsmCodes := ?xs[?i := ?u]\<rparr>"
  have i: "?i < length ?xs" using assms by simp
  have run: "ReplaceOperandAt a index operands = Inr ?a'"
    using assms by (simp add: ReplaceOperandAt_def)
  have upd: "?xs[?i := ?u] = take ?i ?xs @ ?u # drop (Suc ?i) ?xs"
    using i by (rule upd_conv_take_nth_drop)
  have old: "?xs = take ?i ?xs @ ?xs ! ?i # drop (Suc ?i) ?xs"
    using i by (rule id_take_nth_drop)
  have off: "unit_offset ?a' ?i = unit_offset a ?i"
    by (simp add: unit_offset_concat)
  have raw': "ToRawByteCode ?a' = concat (map RawByte (take ?i ?xs)) @ operands @ concat (map RawByte (drop (Suc ?i) ?xs))"
    by (simp add: ToRawByteCode_concat upd)
  have at: "take 4 (drop (unit_offset a ?i) (ToRawByteCode ?a')) = operands"
    using assms(3) by (simp add: raw' unit_offset_concat)
  have raw: "ToRawByteCode a = concat (map RawByte (take ?i ?xs)) @ RawByte (?xs ! ?i) @ concat (map RawByte (drop (Suc ?i) ?xs))"
    by (subst ToRawByteCode_concat, subst old) simp
  have len: "length (ToRawByteCode ?a') = length (ToRawByteCode a)"
    if "length (RawByte (?xs ! ?i)) = 4"
    using that assms(3) by (simp add: raw raw')
  show ?thesis
    using run i off at len by (intro exI [of _ ?a']) simp
qed

theorem ReplaceOperandAt_frame_witness:
  "ReplaceOperandAt
     \<lparr>AsmCodes = [\<lparr>RawByte = [0x21], Value = ''Push''\<rparr>,
                  \<lparr>RawByte = [0, 0, 0, 1], Value = ''00000001''\<rparr>]\<rparr> 1 [0, 0, 0, 2]
     = Inr \<lparr>AsmCodes = [\<lparr>RawByte = [0x21], Value = ''Push''\<rparr>,
                        \<lparr>RawByte = [0, 0, 0, 2], Value = ''00000002''\<rparr>]\<rparr> \<and>
   ToRawByteCode \<lparr>AsmCodes = [\<lparr>RawByte = [0x21], Value = ''Push''\<rparr>,
                        \<lparr>RawByte = [0, 0, 0, 2], Value = ''00000002''\<rparr>]\<rparr> = [0x21, 0, 0, 0, 2] \<and>
   ToRawByteCode \<lparr>AsmCodes = [\<lparr>RawByte = [0x21], Value = ''Push''\<rparr>,
                  \<lparr>RawByte = [0, 0, 0, 1], Value = ''00000001''\<rparr>]\<rparr> = [0x21, 0, 0, 0, 1]"
proof -
  let ?a = "\<lparr>AsmCodes = [\<lparr>RawByte = [0x21], Value = ''Push''\<rparr>,
                  \<lparr>RawByte = [0, 0, 0, 1], Value = ''00000001''\<rparr>]\<rparr>"
  have h: "(0::int) \<le> 1" "1 < int (length (AsmCodes ?a))" "length [0, 0, 0, 2 :: byte] = 4"
    by simp_all
  let ?b = "\<lparr>AsmCodes = [\<lparr>RawByte = [0x21], Value = ''Push''\<rparr>,
                  \<lparr>RawByte = [0, 0, 0, 2], Value = ''00000002''\<rparr>]\<rparr>"
  from ReplaceOperandAt_frame [OF h] obtain a' where
    r: "ReplaceOperandAt ?a 1 [0, 0, 0, 2] = Inr a'"
    and l: "length (RawByte (AsmCodes ?a ! nat 1)) = 4 \<longrightarrow>
              length (ToRawByteCode a') = length (ToRawByteCode ?a)"
    by blast
  have e: "ReplaceOperandAt ?a 1 [0, 0, 0, 2] = Inr ?b"
    by (simp add: ReplaceOperandAt_def Sprintf_x_def hex_digit_def)
  have a': "a' = ?b" using r e by simp
  have raw: "ToRawByteCode ?a = [0x21, 0, 0, 0, 1]"
    by (simp add: ToRawByteCode_def)
  have "length (ToRawByteCode ?b) = 5"
    using l raw unfolding a' by simp
  moreover have "ToRawByteCode ?b = [0x21, 0, 0, 0, 2]"
    by (simp add: ToRawByteCode_def)
  ultimately show ?thesis
    using r raw unfolding a' by simp
qed

text \<open>
  C7. \<^verbatim>\<open>EmergeAt\<close> at an index between 0 and the number of units, with a recognized opcode
  and \<open>n\<close> operands, yields the units before the index, then the opcode unit and its
  operand units, then the units from the index on, moved right by \<open>1 + n\<close>, and returns
  the new number of units.
\<close>

theorem EmergeAt_inserts:
  assumes "0 \<le> index" and "index \<le> int (length (AsmCodes a))"
    and "op_String oc operator = Inr opStr"
  shows "\<exists>a'. EmergeAt oc a index operator operands = Inr (int (length (AsmCodes a')), a') \<and>
     AsmCodes a' = take (nat index) (AsmCodes a)
               @ (\<lparr>RawByte = [op_byte oc operator], Value = opStr\<rparr>
                    # map (\<lambda>opnd. \<lparr>RawByte = opnd, Value = Sprintf_x opnd\<rparr>) operands)
               @ drop (nat index) (AsmCodes a) \<and>
     length (AsmCodes a') = length (AsmCodes a) + 1 + length operands \<and>
     (\<forall>j < nat index. AsmCodes a' ! j = AsmCodes a ! j) \<and>
     (\<forall>j. nat index \<le> j \<and> j < length (AsmCodes a) \<longrightarrow>
          AsmCodes a' ! (j + 1 + length operands) = AsmCodes a ! j)"
proof -
  let ?new = "\<lparr>RawByte = [op_byte oc operator], Value = opStr\<rparr>
                    # map (\<lambda>opnd. \<lparr>RawByte = opnd, Value = Sprintf_x opnd\<rparr>) operands"
  let ?xs = "take (nat index) (AsmCodes a) @ ?new @ drop (nat index) (AsmCodes a)"
  let ?a' = "a\<lparr>AsmCodes := ?xs\<rparr>"
  have i: "nat index \<le> length (AsmCodes a)" using assms by simp
  have len: "length ?xs = length (AsmCodes a) + 1 + length operands"
    using i by simp
  have run: "EmergeAt oc a index operator operands = Inr (int (length (AsmCodes ?a')), ?a')"
    using assms by (simp add: EmergeAt_def convert_Inr Let_def instruction_def)
  have before: "?xs ! j = AsmCodes a ! j" if "j < nat index" for j
    using that i by (simp add: nth_append)
  have after: "?xs ! (j + 1 + length operands) = AsmCodes a ! j"
    if "nat index \<le> j" and "j < length (AsmCodes a)" for j
  proof -
    have "?xs ! (j + 1 + length operands) = (?new @ drop (nat index) (AsmCodes a)) ! (j + 1 + length operands - nat index)"
      using that i by (simp add: nth_append min_def)
    also have "\<dots> = drop (nat index) (AsmCodes a) ! (j - nat index)"
      using that by (simp add: nth_append Suc_diff_le)
    also have "\<dots> = AsmCodes a ! j"
      using that by simp
    finally show ?thesis .
  qed
  show ?thesis
    using run len before after by (intro exI [of _ ?a']) simp
qed

theorem EmergeAt_inserts_witness:
  "EmergeAt push_only
     \<lparr>AsmCodes = [\<lparr>RawByte = [0x21], Value = ''Push''\<rparr>,
                  \<lparr>RawByte = [0, 0, 0, 1], Value = ''00000001''\<rparr>]\<rparr> 1 0x21 [[0, 0, 0, 9]]
     = Inr (4, \<lparr>AsmCodes = [\<lparr>RawByte = [0x21], Value = ''Push''\<rparr>,
                            \<lparr>RawByte = [0x21], Value = ''Push''\<rparr>,
                            \<lparr>RawByte = [0, 0, 0, 9], Value = ''00000009''\<rparr>,
                            \<lparr>RawByte = [0, 0, 0, 1], Value = ''00000001''\<rparr>]\<rparr>)"
proof -
  let ?a = "\<lparr>AsmCodes = [\<lparr>RawByte = [0x21], Value = ''Push''\<rparr>,
                  \<lparr>RawByte = [0, 0, 0, 1], Value = ''00000001''\<rparr>]\<rparr>"
  have h: "(0::int) \<le> 1" "1 \<le> int (length (AsmCodes ?a))"
    "op_String push_only (0x21 :: byte) = Inr ''Push''"
    by (simp_all add: push_only_def)
  from EmergeAt_inserts [OF h, of "[[0, 0, 0, 9]]"] obtain a' where
    "EmergeAt push_only ?a 1 0x21 [[0, 0, 0, 9]] = Inr (int (length (AsmCodes a')), a')"
    and "AsmCodes a' = take (nat 1) (AsmCodes ?a)
               @ (\<lparr>RawByte = [op_byte push_only 0x21], Value = ''Push''\<rparr>
                    # map (\<lambda>opnd. \<lparr>RawByte = opnd, Value = Sprintf_x opnd\<rparr>) [[0, 0, 0, 9]])
               @ drop (nat 1) (AsmCodes ?a)"
    by blast
  then show ?thesis
    by (cases a') (simp add: Sprintf_x_def hex_digit_def push_only_def)
qed

text \<open>
  C8. \<^verbatim>\<open>Equal\<close> is reflexive and symmetric, and it is false when the two sequences differ
  in length or when the units at some position differ in their raw bytes or their text.
\<close>

theorem Equal_properties:
  "Equal a a \<and> Equal a b = Equal b a \<and>
   (length (AsmCodes a) \<noteq> length (AsmCodes b) \<longrightarrow> \<not> Equal a b) \<and>
   (\<forall>i. i < length (AsmCodes a) \<and> i < length (AsmCodes b) \<and>
        (RawByte (AsmCodes a ! i) \<noteq> RawByte (AsmCodes b ! i) \<or>
         Value (AsmCodes a ! i) \<noteq> Value (AsmCodes b ! i)) \<longrightarrow> \<not> Equal a b)"
  by (auto simp: Equal_iff)

theorem Equal_properties_witness:
  "Equal \<lparr>AsmCodes = [\<lparr>RawByte = [0x21], Value = ''Push''\<rparr>,
                      \<lparr>RawByte = [0, 0, 0, 1], Value = ''00000001''\<rparr>]\<rparr>
         \<lparr>AsmCodes = [\<lparr>RawByte = [0x21], Value = ''Push''\<rparr>,
                      \<lparr>RawByte = [0, 0, 0, 1], Value = ''00000001''\<rparr>]\<rparr> \<and>
   \<not> Equal \<lparr>AsmCodes = [\<lparr>RawByte = [0x21], Value = ''Push''\<rparr>,
                      \<lparr>RawByte = [0, 0, 0, 1], Value = ''00000001''\<rparr>]\<rparr>
         \<lparr>AsmCodes = [\<lparr>RawByte = [0x21], Value = ''Push''\<rparr>,
                      \<lparr>RawByte = [0, 0, 0, 2], Value = ''00000002''\<rparr>]\<rparr> \<and>
   \<not> Equal \<lparr>AsmCodes = [\<lparr>RawByte = [0x21], Value = ''Push''\<rparr>,
                      \<lparr>RawByte = [0, 0, 0, 1], Value = ''00000001''\<rparr>]\<rparr>
         \<lparr>AsmCodes = [\<lparr>RawByte = [0x21], Value = ''Push''\<rparr>]\<rparr>"
proof -
  let ?a = "\<lparr>AsmCodes = [\<lparr>RawByte = [0x21], Value = ''Push''\<rparr>,
                      \<lparr>RawByte = [0, 0, 0, 1], Value = ''00000001''\<rparr>]\<rparr>"
  let ?b = "\<lparr>AsmCodes = [\<lparr>RawByte = [0x21], Value = ''Push''\<rparr>,
                      \<lparr>RawByte = [0, 0, 0, 2], Value = ''00000002''\<rparr>]\<rparr>"
  let ?c = "\<lparr>AsmCodes = [\<lparr>RawByte = [0x21 :: byte], Value = ''Push''\<rparr>]\<rparr>"
  have len: "length (AsmCodes ?a) \<noteq> length (AsmCodes ?c)" by simp
  have diff: "(1::nat) < length (AsmCodes ?a) \<and> 1 < length (AsmCodes ?b) \<and>
        (RawByte (AsmCodes ?a ! 1) \<noteq> RawByte (AsmCodes ?b ! 1) \<or>
         Value (AsmCodes ?a ! 1) \<noteq> Value (AsmCodes ?b ! 1))" by simp
  have "Equal ?a ?a" using Equal_properties [of ?a ?a] by blast
  moreover have "\<not> Equal ?a ?b" using Equal_properties [of ?a ?b] diff by blast
  moreover have "\<not> Equal ?a ?c" using Equal_properties [of ?a ?c] len by blast
  ultimately show ?thesis by blast
qed

text \<open>
  C10. \<^verbatim>\<open>EmergeAt\<close> with an opcode whose \<^verbatim>\<open>String()\<close> fails returns 0 and leaves the
  \<^verbatim>\<open>Asm\<close> as it was, at every index: it returns before it slices.
\<close>

theorem EmergeAt_unrecognized:
  "op_String oc operator = Inl err \<Longrightarrow> EmergeAt oc a index operator operands = Inr (0, a)"
  by (simp add: EmergeAt_def convert_Inl)

theorem EmergeAt_unrecognized_witness:
  "EmergeAt push_only \<lparr>AsmCodes = [\<lparr>RawByte = [0x21], Value = ''Push''\<rparr>]\<rparr> 7 0x22 [[0, 0, 0, 1]]
     = Inr (0, \<lparr>AsmCodes = [\<lparr>RawByte = [0x21], Value = ''Push''\<rparr>]\<rparr>)"
proof -
  have "op_String push_only (0x22 :: byte) = Inl ()"
    by (simp add: push_only_def)
  then show ?thesis
    by (rule EmergeAt_unrecognized)
qed

subsection \<open>The lexer's driver loop\<close>

lemma run_loop_never: "run_loop fuel (Some f) s l = None"
proof (induction fuel arbitrary: f)
  case 0
  show ?case by simp
next
  case (Suc fuel)
  show ?case by (cases f) (simp_all add: Suc.IH)
qed

text \<open>
  C2 says that the driver loop reaches \<^verbatim>\<open>nil\<close> on every input and the channel is then
  closed. In the code \<^verbatim>\<open>DefaultStateFn\<close> returns itself: whatever the input and the number
  of iterations allowed, the loop is still running and \<^verbatim>\<open>close\<close> has not been reached.
\<close>

theorem run_never_closes: "run fuel l inp = None"
  by (simp add: run_def run_loop_never)

end
